theory Spec2Isabelle
  imports Main "HOL-Library.AList"
begin

section \<open>Python strings\<close>

text \<open>
  A Python \<open>str\<close> is a sequence of Unicode code points, so a string is a list of
  code points and \<open>length\<close> counts what Python's \<open>len\<close> counts. ASCII literals are
  written \<open>ustr ''...''\<close>.
\<close>

type_synonym pystr = "nat list"

abbreviation ustr :: "string \<Rightarrow> pystr" where
  "ustr s \<equiv> map (of_char :: char \<Rightarrow> nat) s"

text \<open>
  \<open>str.isspace\<close> on one code point; the same set is what \<open>str.strip\<close>,
  \<open>str.rstrip\<close> and the pattern \<open>\s\<close> of \<open>re\<close> use.
\<close>

definition isspace :: "nat \<Rightarrow> bool" where
  "isspace c =
     ((9 \<le> c \<and> c \<le> 13) \<or> (28 \<le> c \<and> c \<le> 32) \<or> c = 0x85 \<or> c = 0xA0 \<or> c = 0x1680 \<or>
      (0x2000 \<le> c \<and> c \<le> 0x200A) \<or> c = 0x2028 \<or> c = 0x2029 \<or> c = 0x202F \<or>
      c = 0x205F \<or> c = 0x3000)"

text \<open>
  The pattern \<open>\d\<close> of \<open>re\<close> on a \<open>str\<close> is \<open>str.isdecimal\<close>: the code points of
  general category Nd. They come in runs of ten, digit zero first; the table lists the
  first code point of every run (Unicode 14, the table of CPython 3.11).
\<close>

definition decimal_runs :: "nat list" where
  "decimal_runs =
    [0x30, 0x660, 0x6F0, 0x7C0, 0x966, 0x9E6, 0xA66, 0xAE6, 0xB66, 0xBE6, 0xC66,
     0xCE6, 0xD66, 0xDE6, 0xE50, 0xED0, 0xF20, 0x1040, 0x1090, 0x17E0, 0x1810, 0x1946,
     0x19D0, 0x1A80, 0x1A90, 0x1B50, 0x1BB0, 0x1C40, 0x1C50, 0xA620, 0xA8D0, 0xA900,
     0xA9D0, 0xA9F0, 0xAA50, 0xABF0, 0xFF10, 0x104A0, 0x10D30, 0x11066, 0x110F0,
     0x11136, 0x111D0, 0x112F0, 0x11450, 0x114D0, 0x11650, 0x116C0, 0x11730, 0x118E0,
     0x11950, 0x11C50, 0x11D50, 0x11DA0, 0x16A60, 0x16AC0, 0x16B50, 0x1D7CE, 0x1D7D8,
     0x1D7E2, 0x1D7EC, 0x1D7F6, 0x1E140, 0x1E2F0, 0x1E950, 0x1FBF0]"

definition isdecimal :: "nat \<Rightarrow> bool" where
  "isdecimal c = list_ex (\<lambda>z. z \<le> c \<and> c < z + 10) decimal_runs"

definition lstrip :: "pystr \<Rightarrow> pystr" where
  "lstrip s = dropWhile isspace s"

definition rstrip :: "pystr \<Rightarrow> pystr" where
  "rstrip s = rev (dropWhile isspace (rev s))"

definition strip :: "pystr \<Rightarrow> pystr" where
  "strip s = rstrip (lstrip s)"

definition startswith :: "pystr \<Rightarrow> pystr \<Rightarrow> bool" where
  "startswith s p = (take (length p) s = p)"

text \<open>A text without leading or trailing whitespace.\<close>

definition no_outer_whitespace :: "pystr \<Rightarrow> bool" where
  "no_outer_whitespace t = (t = [] \<or> (\<not> isspace (hd t) \<and> \<not> isspace (last t)))"

text \<open>\<open>content.split('\n')\<close>: the pieces between newline characters (code point 10).\<close>

fun split_newline :: "pystr \<Rightarrow> pystr list" where
  "split_newline [] = [[]]"
| "split_newline (c # cs) =
     (if c = 10 then [] # split_newline cs
      else (case split_newline cs of
              l # ls \<Rightarrow> (c # l) # ls
            | [] \<Rightarrow> [[c]]))"

section \<open>Elements\<close>

text \<open>
  The parser builds dictionaries \<open>{"type": ..., "text": ..., "list_type": ...}\<close>; the
  values of \<open>"type"\<close> form a closed set, so an element is a tagged union. \<open>Li\<close> carries
  the value of \<open>"list_type"\<close>.
\<close>

datatype list_type = Ul | Ol

datatype element =
    Empty
  | H1 pystr
  | H2 pystr
  | H3 pystr
  | Li list_type pystr
  | P pystr

section \<open>MarkdownParser.parse\<close>

text \<open>
  \<open>re.match(r'^[\*\-]\s+', line)\<close> and \<open>re.sub(r'^[\*\-]\s+', '', line)\<close>: the marker
  is one of \<open>*\<close> (42) and \<open>-\<close> (45) followed by at least one whitespace character;
  \<open>\s+\<close> is greedy, so the substitution removes the marker and the whole run of
  whitespace after it. The pattern is anchored, so it matches at most once.
\<close>

definition match_ul :: "pystr \<Rightarrow> bool" where
  "match_ul line =
     (case line of
        [] \<Rightarrow> False
      | c # rest \<Rightarrow> (c = 42 \<or> c = 45) \<and> takeWhile isspace rest \<noteq> [])"

definition sub_ul :: "pystr \<Rightarrow> pystr" where
  "sub_ul line = (if match_ul line then dropWhile isspace (tl line) else line)"

text \<open>
  \<open>^\d+\.\s+\<close>: a greedy run of at least one decimal digit, a full stop (46), and a
  greedy run of at least one whitespace character.
\<close>

definition match_ol :: "pystr \<Rightarrow> bool" where
  "match_ol line =
     (takeWhile isdecimal line \<noteq> [] \<and>
      (case dropWhile isdecimal line of
         [] \<Rightarrow> False
       | c # rest \<Rightarrow> c = 46 \<and> takeWhile isspace rest \<noteq> []))"

definition sub_ol :: "pystr \<Rightarrow> pystr" where
  "sub_ol line =
     (if match_ol line then dropWhile isspace (tl (dropWhile isdecimal line)) else line)"

text \<open>
  The body of the \<open>while\<close> loop for one line, already right-stripped: every branch
  appends exactly one element and advances \<open>i\<close> by one, so the body is the element it
  appends. The branches are tried in the order of the source.
\<close>

definition parse_line :: "pystr \<Rightarrow> element" where
  "parse_line line =
     (if line = [] then Empty
      else if startswith line (ustr ''# '') then H1 (strip (drop 2 line))
      else if startswith line (ustr ''## '') then H2 (strip (drop 3 line))
      else if startswith line (ustr ''### '') then H3 (strip (drop 4 line))
      else if match_ul line then Li Ul (sub_ul line)
      else if match_ol line then Li Ol (sub_ol line)
      else P line)"

function parse_loop :: "pystr list \<Rightarrow> nat \<Rightarrow> element list \<Rightarrow> element list" where
  "parse_loop lines i elements =
     (if i < length lines
      then parse_loop lines (i + 1) (elements @ [parse_line (rstrip (lines ! i))])
      else elements)"
  by pat_completeness auto
termination
  by (relation "measure (\<lambda>(lines, i, elements). length lines - i)") auto

declare parse_loop.simps [simp del]

text \<open>\<open>MarkdownParser(content).parse()\<close>.\<close>

definition parse :: "pystr \<Rightarrow> element list" where
  "parse content = parse_loop (split_newline content) 0 []"

section \<open>MarkdownParser.process_inline\<close>

text \<open>
  \<open>re.sub(pattern, repl, text)\<close> scans the text from the left. At each position it
  tries the pattern; on a match it emits the replacement and goes on after the match,
  otherwise it copies one character and goes on at the next position. A matcher gets
  the character before the position (for the lookbehind \<open>(?<!\*)\<close>; \<open>None\<close> at the
  start of the text) and the text from the position on; it returns the replacement and
  the length of the match. None of the five patterns matches the empty string, so a
  match always consumes at least one character.
\<close>

type_synonym matcher = "nat option \<Rightarrow> pystr \<Rightarrow> (pystr \<times> nat) option"

function re_sub :: "matcher \<Rightarrow> nat option \<Rightarrow> pystr \<Rightarrow> pystr" where
  "re_sub m prev [] = []"
| "re_sub m prev (c # cs) =
     (case m prev (c # cs) of
        None \<Rightarrow> c # re_sub m (Some c) cs
      | Some (out, n) \<Rightarrow> out @ re_sub m (Some ((c # cs) ! (n - 1))) (drop (n - 1) cs))"
  by pat_completeness auto
termination
  by (relation "measure (\<lambda>(m, prev, s). length s)") auto

text \<open>
  The lazy group \<open>(.+?)\<close> followed by a closing delimiter. \<open>.\<close> matches any
  character but the newline. The group has consumed at least one character, the last
  one being \<open>p\<close>; before each further character the closing delimiter is tried first,
  so the result is the shortest continuation after which the delimiter matches.
  \<open>closes p r\<close> says that the delimiter matches at the text \<open>r\<close> when the character
  before it is \<open>p\<close>.
\<close>

fun lazy_dot :: "(nat \<Rightarrow> pystr \<Rightarrow> bool) \<Rightarrow> nat \<Rightarrow> pystr \<Rightarrow> pystr option" where
  "lazy_dot closes p [] = (if closes p [] then Some [] else None)"
| "lazy_dot closes p (c # cs) =
     (if closes p (c # cs) then Some []
      else if c = 10 then None
      else map_option ((#) c) (lazy_dot closes c cs))"

text \<open>
  What "the shortest span" says for a lazy group: \<open>x\<close> is the text of \<open>s\<close> after an
  opening delimiter of \<open>d\<close> characters; it is not empty and has no newline; the closing
  delimiter matches right after it, and after no shorter non-empty part of it.
\<close>

definition shortest_span :: "(nat \<Rightarrow> pystr \<Rightarrow> bool) \<Rightarrow> nat \<Rightarrow> pystr \<Rightarrow> pystr \<Rightarrow> bool" where
  "shortest_span closes d s x =
     (x \<noteq> [] \<and> 10 \<notin> set x \<and> take (length x) (drop d s) = x \<and>
      closes (last x) (drop (d + length x) s) \<and>
      (\<forall>k. 0 < k \<and> k < length x \<longrightarrow> \<not> closes (x ! (k - 1)) (drop (d + k) s)))"

text \<open>\<open>\*\*(.+?)\*\*\<close> with the replacement \<open><strong>\1</strong>\<close>; \<open>*\<close> is 42.\<close>

definition strong_closes :: "nat \<Rightarrow> pystr \<Rightarrow> bool" where
  "strong_closes p r = startswith r (ustr ''**'')"

definition match_strong :: matcher where
  "match_strong prev s =
     (case s of
        a # b # x # rest \<Rightarrow>
          if a = 42 \<and> b = 42 \<and> x \<noteq> 10
          then (case lazy_dot strong_closes x rest of
                  None \<Rightarrow> None
                | Some more \<Rightarrow>
                    Some (ustr ''<strong>'' @ x # more @ ustr ''</strong>'', length more + 5))
          else None
      | _ \<Rightarrow> None)"

text \<open>
  \<open>(?<!\*)\*(?!\*)(.+?)(?<!\*)\*(?!\*)\<close> with the replacement \<open><em>\1</em>\<close>: an
  asterisk that has no asterisk before or after it, on both sides of the group.
\<close>

definition em_closes :: "nat \<Rightarrow> pystr \<Rightarrow> bool" where
  "em_closes p r =
     (p \<noteq> 42 \<and>
      (case r of
         [] \<Rightarrow> False
       | c # r' \<Rightarrow> c = 42 \<and> (case r' of [] \<Rightarrow> True | d # _ \<Rightarrow> d \<noteq> 42)))"

definition match_em :: matcher where
  "match_em prev s =
     (case s of
        a # x # rest \<Rightarrow>
          if prev \<noteq> Some 42 \<and> a = 42 \<and> x \<noteq> 42 \<and> x \<noteq> 10
          then (case lazy_dot em_closes x rest of
                  None \<Rightarrow> None
                | Some more \<Rightarrow> Some (ustr ''<em>'' @ x # more @ ustr ''</em>'', length more + 3))
          else None
      | _ \<Rightarrow> None)"

text \<open>\<open>~~(.+?)~~\<close> with the replacement \<open><s>\1</s>\<close>; \<open>~\<close> is 126.\<close>

definition strike_closes :: "nat \<Rightarrow> pystr \<Rightarrow> bool" where
  "strike_closes p r = startswith r (ustr ''~~'')"

definition match_strike :: matcher where
  "match_strike prev s =
     (case s of
        a # b # x # rest \<Rightarrow>
          if a = 126 \<and> b = 126 \<and> x \<noteq> 10
          then (case lazy_dot strike_closes x rest of
                  None \<Rightarrow> None
                | Some more \<Rightarrow> Some (ustr ''<s>'' @ x # more @ ustr ''</s>'', length more + 5))
          else None
      | _ \<Rightarrow> None)"

text \<open>
  \<open>\[([^\]]+)\]\(([^\)]+)\)\<close> with the replacement \<open><a href="\2">\1</a>\<close>. The
  brackets are 91 and 93, the parentheses 40 and 41, the double quote 34. A negated
  class also matches the newline. Each greedy run must be followed by the one
  character it excludes, so it is the whole maximal run.
\<close>

definition match_link :: matcher where
  "match_link prev s =
     (case s of
        [] \<Rightarrow> None
      | a # r \<Rightarrow>
          if a \<noteq> 91 then None
          else
            (let label = takeWhile (\<lambda>c. c \<noteq> 93) r in
             case dropWhile (\<lambda>c. c \<noteq> 93) r of
               b # c # r2 \<Rightarrow>
                 (let url = takeWhile (\<lambda>c. c \<noteq> 41) r2 in
                  if label \<noteq> [] \<and> c = 40 \<and> url \<noteq> [] \<and> dropWhile (\<lambda>c. c \<noteq> 41) r2 \<noteq> []
                  then Some (ustr ''<a href='' @ [34] @ url @ [34] @ ustr ''>'' @ label @
                             ustr ''</a>'',
                             length label + length url + 4)
                  else None)
             | _ \<Rightarrow> None))"

text \<open>The backquote is 96: the pattern is a backquote, \<open>([^`]+)\<close> and a backquote,
  with the replacement \<open><code>\1</code>\<close>.\<close>

definition match_code :: matcher where
  "match_code prev s =
     (case s of
        [] \<Rightarrow> None
      | a # r \<Rightarrow>
          if a \<noteq> 96 then None
          else
            (let body = takeWhile (\<lambda>c. c \<noteq> 96) r in
             if body \<noteq> [] \<and> dropWhile (\<lambda>c. c \<noteq> 96) r \<noteq> []
             then Some (ustr ''<code>'' @ body @ ustr ''</code>'', length body + 2)
             else None))"

definition process_inline :: "pystr \<Rightarrow> pystr" where
  "process_inline text0 =
     (let text1 = re_sub match_strong None text0;
          text2 = re_sub match_em None text1;
          text3 = re_sub match_strike None text2;
          text4 = re_sub match_link None text3;
          text5 = re_sub match_code None text4
      in text5)"

section \<open>HTMLGenerator.generate\<close>

text \<open>\<open>elem["type"]\<close>, \<open>elem.get("text", "")\<close> and \<open>elem["list_type"]\<close>.\<close>

fun elem_type :: "element \<Rightarrow> pystr" where
  "elem_type Empty = ustr ''empty''"
| "elem_type (H1 t) = ustr ''h1''"
| "elem_type (H2 t) = ustr ''h2''"
| "elem_type (H3 t) = ustr ''h3''"
| "elem_type (Li k t) = ustr ''li''"
| "elem_type (P t) = ustr ''p''"

fun elem_text :: "element \<Rightarrow> pystr" where
  "elem_text Empty = []"
| "elem_text (H1 t) = t"
| "elem_text (H2 t) = t"
| "elem_text (H3 t) = t"
| "elem_text (Li k t) = t"
| "elem_text (P t) = t"

fun list_type_str :: "list_type \<Rightarrow> pystr" where
  "list_type_str Ul = ustr ''ul''"
| "list_type_str Ol = ustr ''ol''"

text \<open>
  The \<open>for\<close> loop over the elements, appending one string to \<open>html_body\<close> per
  element. The comparison of \<open>elem["type"]\<close> with \<open>"empty"\<close> and \<open>"li"\<close> is the case
  distinction on the constructor.
\<close>

fun generate_loop :: "element list \<Rightarrow> pystr list \<Rightarrow> pystr list" where
  "generate_loop [] html_body = html_body"
| "generate_loop (Empty # elements) html_body =
     generate_loop elements (html_body @ [ustr ''<p>&nbsp;</p>''])"
| "generate_loop (Li k t # elements) html_body =
     (let text = process_inline t in
      generate_loop elements
        (html_body @ [ustr ''<'' @ list_type_str k @ ustr ''><li>'' @ text @
                      ustr ''</li></'' @ list_type_str k @ ustr ''>'']))"
| "generate_loop (elem # elements) html_body =
     (let text = process_inline (elem_text elem) in
      generate_loop elements
        (html_body @ [ustr ''<'' @ elem_type elem @ ustr ''>'' @ text @
                      ustr ''</'' @ elem_type elem @ ustr ''>'']))"

definition html_head :: pystr where
  "html_head =
     ustr ''<!DOCTYPE html>'' @ [10] @
     ustr ''<html>'' @ [10] @
     ustr ''<head>'' @ [10] @
     ustr ''    <meta charset='' @ [34] @ ustr ''utf-8'' @ [34] @ ustr ''>'' @ [10] @
     ustr ''    <style>'' @ [10] @
     ustr ''        body {'' @ [10] @
     ustr ''            margin: 2cm 2cm 2cm 2cm;'' @ [10] @
     ustr ''        }'' @ [10]"

definition html_middle :: pystr where
  "html_middle =
     [10] @ ustr ''    </style>'' @ [10] @ ustr ''</head>'' @ [10] @ ustr ''<body>'' @ [10]"

definition html_foot :: pystr where
  "html_foot = [10] @ ustr ''</body>'' @ [10] @ ustr ''</html>''"

text \<open>
  \<open>generate(elements)\<close>. The style sheet \<open>css = self.generate_css()\<close> formats the
  numbers of the styles with \<open>%g\<close>; that formatting of floating-point numbers is not
  modelled, and the style sheet is a parameter.
\<close>

definition generate :: "pystr \<Rightarrow> element list \<Rightarrow> pystr" where
  "generate css elements =
     html_head @ css @ html_middle @ concat (generate_loop elements []) @ html_foot"

section \<open>Styles\<close>

text \<open>
  The numeric fields hold a Python \<open>int\<close> (the literals of \<open>DEFAULT_STYLES\<close>) or the
  \<open>float\<close> that \<open>float(s)\<close> returned. The rounding of a decimal text to a binary
  floating-point number is not modelled: \<open>PyFloat s\<close> stands for the value of
  \<open>float(s)\<close> and keeps the text.
\<close>

datatype pynum = PyInt int | PyFloat pystr

record font_config =
  family :: pystr
  size' :: pynum

record paragraph_config =
  line_spacing :: pynum
  space_before :: pynum
  space_after :: pynum
  align :: pystr
  first_line_indent :: pynum

record element_style =
  name :: pystr
  font :: font_config
  paragraph' :: paragraph_config

text \<open>A dictionary keeps the order of insertion, so a style set is an association list.\<close>

type_synonym styles = "(pystr \<times> element_style) list"

definition heiti :: pystr where
  "heiti = [0x9ED1, 0x4F53]"

definition fangsong_gb2312 :: pystr where
  "fangsong_gb2312 = [0x4EFF, 0x5B8B] @ ustr ''_GB2312''"

definition DEFAULT_STYLES :: styles where
  "DEFAULT_STYLES =
     [(ustr ''h1'',
       \<lparr>name = [0x4E00, 0x7EA7, 0x6807, 0x9898],
        font = \<lparr>family = heiti, size' = PyInt 16\<rparr>,
        paragraph' = \<lparr>line_spacing = PyInt 30, space_before = PyInt 0, space_after = PyInt 12,
                     align = ustr ''center'', first_line_indent = PyInt 0\<rparr>\<rparr>),
      (ustr ''h2'',
       \<lparr>name = [0x4E8C, 0x7EA7, 0x6807, 0x9898],
        font = \<lparr>family = heiti, size' = PyInt 16\<rparr>,
        paragraph' = \<lparr>line_spacing = PyInt 30, space_before = PyInt 12, space_after = PyInt 12,
                     align = ustr ''left'', first_line_indent = PyInt 0\<rparr>\<rparr>),
      (ustr ''h3'',
       \<lparr>name = [0x4E09, 0x7EA7, 0x6807, 0x9898],
        font = \<lparr>family = heiti, size' = PyInt 16\<rparr>,
        paragraph' = \<lparr>line_spacing = PyInt 28, space_before = PyInt 6, space_after = PyInt 6,
                     align = ustr ''left'', first_line_indent = PyInt 0\<rparr>\<rparr>),
      (ustr ''p'',
       \<lparr>name = [0x6B63, 0x6587],
        font = \<lparr>family = fangsong_gb2312, size' = PyInt 16\<rparr>,
        paragraph' = \<lparr>line_spacing = PyInt 28, space_before = PyInt 0, space_after = PyInt 0,
                     align = ustr ''justify'', first_line_indent = PyInt 2\<rparr>\<rparr>),
      (ustr ''li'',
       \<lparr>name = [0x5217, 0x8868],
        font = \<lparr>family = fangsong_gb2312, size' = PyInt 16\<rparr>,
        paragraph' = \<lparr>line_spacing = PyInt 28, space_before = PyInt 0, space_after = PyInt 0,
                     align = ustr ''justify'', first_line_indent = PyInt 0\<rparr>\<rparr>)]"

section \<open>Interactive input\<close>

datatype error = EOFError | ValueError

text \<open>Sequencing of steps that may raise: the first exception ends the sequence.\<close>

definition and_then :: "error + 'a \<Rightarrow> ('a \<Rightarrow> error + 'b) \<Rightarrow> error + 'b" where
  "and_then m f = (case m of Inl e \<Rightarrow> Inl e | Inr x \<Rightarrow> f x)"

text \<open>
  The standard input is the list of the lines still to be read; \<open>input()\<close> returns the
  next line and raises \<open>EOFError\<close> when there is none. \<open>answer dflt l\<close> is
  \<open>l.strip() or dflt\<close> and \<open>input_or dflt\<close> is \<open>input(prompt).strip() or dflt\<close>.
\<close>

definition answer :: "pystr \<Rightarrow> pystr \<Rightarrow> pystr" where
  "answer dflt l = (if strip l = [] then dflt else strip l)"

definition input_or :: "pystr \<Rightarrow> pystr list \<Rightarrow> error + (pystr \<times> pystr list)" where
  "input_or dflt stdin =
     (case stdin of
        [] \<Rightarrow> Inl EOFError
      | l # rest \<Rightarrow> Inr (answer dflt l, rest))"

text \<open>
  Which texts \<open>float\<close> accepts. A code point from 127 on is first replaced: whitespace
  by a space, a decimal digit by its ASCII digit, anything else by \<open>?\<close> (63), which no
  number contains. An underscore (95) must stand between two digits and is dropped.
  ASCII whitespace at both ends is dropped. What remains is an optional sign and then
  a decimal number with an optional exponent, or one of \<open>inf\<close>, \<open>infinity\<close>, \<open>nan\<close> in
  any case.
\<close>

definition ascii_digit :: "nat \<Rightarrow> bool" where
  "ascii_digit c = (48 \<le> c \<and> c \<le> 57)"

definition ascii_space :: "nat \<Rightarrow> bool" where
  "ascii_space c = ((9 \<le> c \<and> c \<le> 13) \<or> c = 32)"

definition decimal_value :: "nat \<Rightarrow> nat" where
  "decimal_value c =
     (case find (\<lambda>z. z \<le> c \<and> c < z + 10) decimal_runs of
        None \<Rightarrow> 0
      | Some z \<Rightarrow> c - z)"

definition to_ascii :: "nat \<Rightarrow> nat" where
  "to_ascii c =
     (if c < 127 then c
      else if isspace c then 32
      else if isdecimal c then 48 + decimal_value c
      else 63)"

fun underscores_ok :: "nat option \<Rightarrow> pystr \<Rightarrow> bool" where
  "underscores_ok prev [] = True"
| "underscores_ok prev (c # cs) =
     ((if c = 95
       then (case prev of None \<Rightarrow> False | Some p \<Rightarrow> ascii_digit p) \<and>
            (case cs of [] \<Rightarrow> False | d # _ \<Rightarrow> ascii_digit d)
       else True) \<and>
      underscores_ok (Some c) cs)"

definition drop_sign :: "pystr \<Rightarrow> pystr" where
  "drop_sign s = (case s of [] \<Rightarrow> [] | c # cs \<Rightarrow> if c = 43 \<or> c = 45 then cs else c # cs)"

definition exponent_ok :: "pystr \<Rightarrow> bool" where
  "exponent_ok r =
     (case r of
        [] \<Rightarrow> True
      | c # cs \<Rightarrow> (c = 101 \<or> c = 69) \<and> drop_sign cs \<noteq> [] \<and> list_all ascii_digit (drop_sign cs))"

definition number_ok :: "pystr \<Rightarrow> bool" where
  "number_ok r =
     (let int_part = takeWhile ascii_digit r;
          r1 = dropWhile ascii_digit r;
          has_point = (case r1 of [] \<Rightarrow> False | c # _ \<Rightarrow> c = 46);
          frac_part = (if has_point then takeWhile ascii_digit (tl r1) else []);
          r2 = (if has_point then dropWhile ascii_digit (tl r1) else r1)
      in (int_part \<noteq> [] \<or> frac_part \<noteq> []) \<and> exponent_ok r2)"

definition ascii_lower :: "nat \<Rightarrow> nat" where
  "ascii_lower c = (if 65 \<le> c \<and> c \<le> 90 then c + 32 else c)"

definition inf_nan_ok :: "pystr \<Rightarrow> bool" where
  "inf_nan_ok r =
     (map ascii_lower r = ustr ''inf'' \<or> map ascii_lower r = ustr ''infinity'' \<or>
      map ascii_lower r = ustr ''nan'')"

definition float_ok :: "pystr \<Rightarrow> bool" where
  "float_ok s =
     (let t = map to_ascii s;
          t' = filter (\<lambda>c. c \<noteq> 95) t;
          body = rev (dropWhile ascii_space (rev (dropWhile ascii_space t')));
          r = drop_sign body
      in underscores_ok None t \<and> (number_ok r \<or> inf_nan_ok r))"

text \<open>\<open>float(s)\<close>: the number, or \<open>ValueError\<close>.\<close>

definition py_float :: "pystr \<Rightarrow> error + pynum" where
  "py_float s = (if float_ok s then Inr (PyFloat s) else Inl ValueError)"

section \<open>ask_style_config\<close>

text \<open>
  The prompts for the first-level heading: five answers are read, then the style is
  built, and building it converts three of the answers with \<open>float\<close>.
\<close>

definition ask_h1 :: "pystr list \<Rightarrow> error + (element_style \<times> pystr list)" where
  "ask_h1 stdin0 =
     and_then (input_or heiti stdin0) (\<lambda>(h1_font, stdin1).
     and_then (input_or (ustr ''16'') stdin1) (\<lambda>(h1_size, stdin2).
     and_then (input_or (ustr ''center'') stdin2) (\<lambda>(h1_align, stdin3).
     and_then (input_or (ustr ''30'') stdin3) (\<lambda>(h1_ls, stdin4).
     and_then (input_or (ustr ''12'') stdin4) (\<lambda>(h1_sa, stdin5).
     and_then (py_float h1_size) (\<lambda>sz.
     and_then (py_float h1_ls) (\<lambda>ls.
     and_then (py_float h1_sa) (\<lambda>sa.
       Inr (\<lparr>name = [0x4E00, 0x7EA7, 0x6807, 0x9898],
             font = \<lparr>family = h1_font, size' = sz\<rparr>,
             paragraph' = \<lparr>line_spacing = ls, space_before = PyInt 0, space_after = sa,
                           align = h1_align, first_line_indent = PyInt 0\<rparr>\<rparr>,
            stdin5)))))))))"

definition ask_h2 :: "pystr list \<Rightarrow> error + (element_style \<times> pystr list)" where
  "ask_h2 stdin0 =
     and_then (input_or heiti stdin0) (\<lambda>(h2_font, stdin1).
     and_then (input_or (ustr ''16'') stdin1) (\<lambda>(h2_size, stdin2).
     and_then (input_or (ustr ''left'') stdin2) (\<lambda>(h2_align, stdin3).
     and_then (input_or (ustr ''30'') stdin3) (\<lambda>(h2_ls, stdin4).
     and_then (input_or (ustr ''12'') stdin4) (\<lambda>(h2_sa, stdin5).
     and_then (py_float h2_size) (\<lambda>sz.
     and_then (py_float h2_ls) (\<lambda>ls.
     and_then (py_float h2_sa) (\<lambda>sa.
       Inr (\<lparr>name = [0x4E8C, 0x7EA7, 0x6807, 0x9898],
             font = \<lparr>family = h2_font, size' = sz\<rparr>,
             paragraph' = \<lparr>line_spacing = ls, space_before = PyInt 12, space_after = sa,
                           align = h2_align, first_line_indent = PyInt 0\<rparr>\<rparr>,
            stdin5)))))))))"

definition ask_p :: "pystr list \<Rightarrow> error + (element_style \<times> pystr list)" where
  "ask_p stdin0 =
     and_then (input_or fangsong_gb2312 stdin0) (\<lambda>(p_font, stdin1).
     and_then (input_or (ustr ''16'') stdin1) (\<lambda>(p_size, stdin2).
     and_then (input_or (ustr ''justify'') stdin2) (\<lambda>(p_align, stdin3).
     and_then (input_or (ustr ''28'') stdin3) (\<lambda>(p_ls, stdin4).
     and_then (input_or (ustr ''2'') stdin4) (\<lambda>(p_indent, stdin5).
     and_then (py_float p_size) (\<lambda>sz.
     and_then (py_float p_ls) (\<lambda>ls.
     and_then (py_float p_indent) (\<lambda>ind.
       Inr (\<lparr>name = [0x6B63, 0x6587],
             font = \<lparr>family = p_font, size' = sz\<rparr>,
             paragraph' = \<lparr>line_spacing = ls, space_before = PyInt 0, space_after = PyInt 0,
                           align = p_align, first_line_indent = ind\<rparr>\<rparr>,
            stdin5)))))))))"

text \<open>\<open>DEFAULT_STYLES[key]\<close>, for a key of the table.\<close>

definition default_style :: "pystr \<Rightarrow> element_style" where
  "default_style key = the (map_of DEFAULT_STYLES key)"

text \<open>
  The body of the \<open>try\<close> block: \<open>styles[key] = ...\<close> is the update of the association
  list, which appends a new key.
\<close>

definition ask_style_body :: "pystr list \<Rightarrow> error + (styles \<times> pystr list)" where
  "ask_style_body stdin0 =
     and_then (ask_h1 stdin0) (\<lambda>(h1, stdin1).
     and_then (ask_h2 stdin1) (\<lambda>(h2, stdin2).
     and_then (ask_p stdin2) (\<lambda>(p, stdin3).
       Inr (AList.update (ustr ''li'') (default_style (ustr ''li''))
              (AList.update (ustr ''h3'') (default_style (ustr ''h3''))
                 (AList.update (ustr ''p'') p
                    (AList.update (ustr ''h2'') h2
                       (AList.update (ustr ''h1'') h1 [])))),
            stdin3))))"

text \<open>
  \<open>ask_style_config()\<close>: \<open>except EOFError\<close> returns \<open>DEFAULT_STYLES\<close>, and the input
  is then at its end; a \<open>ValueError\<close> of \<open>float\<close> is not caught. The result comes with
  the input that is left.
\<close>

definition ask_style_config :: "pystr list \<Rightarrow> error + (styles \<times> pystr list)" where
  "ask_style_config stdin0 =
     (case ask_style_body stdin0 of
        Inl EOFError \<Rightarrow> Inr (DEFAULT_STYLES, [])
      | Inl ValueError \<Rightarrow> Inl ValueError
      | Inr r \<Rightarrow> Inr r)"

section \<open>ask_yes_no\<close>

text \<open>
  \<open>response = input(...).strip().lower()\<close> is only compared with the literals below.
  Of \<open>str.lower\<close> the model has the ASCII letters: no other code point is lowered to
  a text that contains a character of these literals, so the comparisons come out the
  same. The loop asks again on any other answer; the end of the input returns the
  default. \<open>0x662F\<close> and \<open>0x5426\<close> are the characters for yes and no.
\<close>

fun ask_yes_no :: "bool \<Rightarrow> pystr list \<Rightarrow> bool \<times> pystr list" where
  "ask_yes_no dflt [] = (dflt, [])"
| "ask_yes_no dflt (l # rest) =
     (let response = map ascii_lower (strip l) in
      if response = [] then (dflt, rest)
      else if response \<in> set [ustr ''y'', ustr ''yes'', [0x662F], ustr ''y''] then (True, rest)
      else if response \<in> set [ustr ''n'', ustr ''no'', [0x5426], ustr ''n''] then (False, rest)
      else ask_yes_no dflt rest)"

section \<open>AppDetector and DocumentConverter\<close>

text \<open>
  What the program finds outside itself: which ProgIDs \<open>win32com.client.Dispatch\<close>
  accepts, the Markdown files that exist with their text, whether the host application
  opens, saves and closes the document without raising, and the absolute path of the
  output file for an input path. Printing is not part of the model; reading a file
  that exists, writing the HTML file and \<open>os.startfile\<close> are taken to succeed.
\<close>

record world =
  dispatch_ok :: "pystr \<Rightarrow> bool"
  md_files :: "pystr \<rightharpoonup> pystr"
  host_converts :: bool
  docx_abspath :: "pystr \<Rightarrow> pystr"

definition WORD_PROG_IDS :: "pystr list" where
  "WORD_PROG_IDS =
     [ustr ''Word.Application'', ustr ''Word.Application.16'', ustr ''Word.Application.15'',
      ustr ''Word.Application.14'']"

definition WPS_PROG_IDS :: "pystr list" where
  "WPS_PROG_IDS = [ustr ''WPS.Application'', ustr ''KWps.Application'']"

definition detect_app :: "world \<Rightarrow> pystr option \<times> pystr" where
  "detect_app w =
     (case find (dispatch_ok w) WORD_PROG_IDS of
        Some prog_id \<Rightarrow> (Some prog_id, ustr ''Word'')
      | None \<Rightarrow>
          (case find (dispatch_ok w) WPS_PROG_IDS of
             Some prog_id \<Rightarrow> (Some prog_id, ustr ''WPS'')
           | None \<Rightarrow> (None, ustr ''None'')))"

text \<open>
  \<open>html_to_docx\<close>: \<open>False\<close> when \<open>_get_app\<close> finds no application, and \<open>False\<close> when
  anything in the \<open>try\<close> block raises.
\<close>

definition html_to_docx :: "world \<Rightarrow> bool" where
  "html_to_docx w =
     (case fst (detect_app w) of
        None \<Rightarrow> False
      | Some prog_id \<Rightarrow> dispatch_ok w prog_id \<and> host_converts w)"

section \<open>Main flow\<close>

definition convert_md_to_word :: "world \<Rightarrow> pystr \<Rightarrow> styles \<Rightarrow> pystr option" where
  "convert_md_to_word w md_path styles =
     (case md_files w md_path of
        None \<Rightarrow> None
      | Some md_content \<Rightarrow>
          (let elements = parse md_content;
               success = html_to_docx w
           in if success then Some (docx_abspath w md_path) else None))"

text \<open>\<open>if result_path:\<close> holds for a path that is not \<open>None\<close> and not empty.\<close>

definition truthy :: "pystr option \<Rightarrow> bool" where
  "truthy r = (case r of None \<Rightarrow> False | Some p \<Rightarrow> p \<noteq> [])"

text \<open>
  \<open>interactive_mode(md_path)\<close>: it returns normally (here: whether the document was
  opened) also when the conversion has failed; only an uncaught \<open>ValueError\<close> of
  \<open>ask_style_config\<close> ends it otherwise.
\<close>

definition interactive_mode :: "world \<Rightarrow> pystr \<Rightarrow> pystr list \<Rightarrow> error + bool" where
  "interactive_mode w md_path stdin0 =
     (let (use_default, stdin1) = ask_yes_no True stdin0 in
      and_then (if use_default then Inr (DEFAULT_STYLES, stdin1) else ask_style_config stdin1)
        (\<lambda>(styles, stdin2).
           let result_path = convert_md_to_word w md_path styles in
           if truthy result_path then Inr (fst (ask_yes_no False stdin2)) else Inr False))"

record args =
  md_file :: "pystr option"
  output' :: "pystr option"
  no_prompt :: bool
  open' :: bool
  check_app :: bool

text \<open>
  \<open>main()\<close> after \<open>parse_args\<close>, as the exit status of the process: 0 when \<open>main\<close>
  returns, 1 for \<open>sys.exit(1)\<close> and for an uncaught exception.
\<close>

definition main :: "world \<Rightarrow> args \<Rightarrow> pystr list \<Rightarrow> nat" where
  "main w a stdin0 =
     (if check_app a then 0
      else
        (case md_file a of
           None \<Rightarrow> 1
         | Some md_path \<Rightarrow>
             if md_path = [] then 1
             else if no_prompt a
             then (if truthy (convert_md_to_word w md_path DEFAULT_STYLES) then 0 else 1)
             else (case interactive_mode w md_path stdin0 of
                     Inl e \<Rightarrow> 1
                   | Inr opened \<Rightarrow> 0)))"

section \<open>Predicates and examples of the claims\<close>

text \<open>
  Of the fifteen answers that \<open>ask_style_config\<close> reads, those at the positions 1, 3, 4,
  6, 8, 9, 11, 13 and 14 are converted with \<open>float\<close>. An answer is fine when it is
  blank (the default is taken) or a text that \<open>float\<close> accepts; a position beyond the
  end of the input is never converted.
\<close>

definition answer_ok :: "pystr list \<Rightarrow> nat \<Rightarrow> bool" where
  "answer_ok stdin i =
     (i < length stdin \<longrightarrow> strip (stdin ! i) = [] \<or> float_ok (strip (stdin ! i)))"

definition numbers_ok :: "pystr list \<Rightarrow> bool" where
  "numbers_ok stdin = list_all (answer_ok stdin) [1, 3, 4, 6, 8, 9, 11, 13, 14]"

text \<open>
  A style set is complete when its keys are exactly the five element kinds and every
  style has its font family and its alignment filled in (the numeric fields always hold
  a number).
\<close>

definition style_keys :: "pystr list" where
  "style_keys = [ustr ''h1'', ustr ''h2'', ustr ''h3'', ustr ''p'', ustr ''li'']"

definition style_set_complete :: "styles \<Rightarrow> bool" where
  "style_set_complete s =
     (set (map fst s) = set style_keys \<and> distinct (map fst s) \<and>
      list_all (\<lambda>(k, st). family (font st) \<noteq> [] \<and> align (paragraph' st) \<noteq> []) s)"

text \<open>Fifteen answers, and the style set they give.\<close>

definition example_answers :: "pystr list" where
  "example_answers =
     [ustr ''SimSun'', ustr ''18'', [], [], [], [], [], [], [], [], [], [], [], [], ustr ''0'']"

definition example_styles :: styles where
  "example_styles =
     [(ustr ''h1'',
       \<lparr>name = [0x4E00, 0x7EA7, 0x6807, 0x9898],
        font = \<lparr>family = ustr ''SimSun'', size' = PyFloat (ustr ''18'')\<rparr>,
        paragraph' = \<lparr>line_spacing = PyFloat (ustr ''30''), space_before = PyInt 0,
                      space_after = PyFloat (ustr ''12''), align = ustr ''center'',
                      first_line_indent = PyInt 0\<rparr>\<rparr>),
      (ustr ''h2'',
       \<lparr>name = [0x4E8C, 0x7EA7, 0x6807, 0x9898],
        font = \<lparr>family = heiti, size' = PyFloat (ustr ''16'')\<rparr>,
        paragraph' = \<lparr>line_spacing = PyFloat (ustr ''30''), space_before = PyInt 12,
                      space_after = PyFloat (ustr ''12''), align = ustr ''left'',
                      first_line_indent = PyInt 0\<rparr>\<rparr>),
      (ustr ''p'',
       \<lparr>name = [0x6B63, 0x6587],
        font = \<lparr>family = fangsong_gb2312, size' = PyFloat (ustr ''16'')\<rparr>,
        paragraph' = \<lparr>line_spacing = PyFloat (ustr ''28''), space_before = PyInt 0,
                      space_after = PyInt 0, align = ustr ''justify'',
                      first_line_indent = PyFloat (ustr ''0'')\<rparr>\<rparr>),
      (ustr ''h3'', default_style (ustr ''h3'')),
      (ustr ''li'', default_style (ustr ''li''))]"

text \<open>
  A machine without Word and WPS, and one where Word answers; neither has the file
  \<open>missing.md\<close>. The arguments name that file, with \<open>--no-prompt\<close> and \<open>--check-app\<close>
  as given.
\<close>

definition no_host :: world where
  "no_host = \<lparr>dispatch_ok = (\<lambda>prog_id. False), md_files = Map.empty, host_converts = False,
              docx_abspath = (\<lambda>md_path. md_path @ ustr ''.docx'')\<rparr>"

definition with_word :: world where
  "with_word = \<lparr>dispatch_ok = (\<lambda>prog_id. prog_id = ustr ''Word.Application''),
                md_files = Map.empty, host_converts = True,
                docx_abspath = (\<lambda>md_path. md_path @ ustr ''.docx'')\<rparr>"

definition example_args :: "bool \<Rightarrow> bool \<Rightarrow> args" where
  "example_args np ca =
     \<lparr>md_file = Some (ustr ''missing.md''), output' = None, no_prompt = np, open' = False,
      check_app = ca\<rparr>"

section \<open>Properties of the string operations\<close>

lemma split_newline_nonempty: "split_newline s \<noteq> []"
  by (induction s) (auto split: list.splits)

lemma split_newline_no_newline: "10 \<notin> set s \<Longrightarrow> split_newline s = [s]"
  by (induction s) auto

lemma split_newline_append_newline: "split_newline (s @ [10]) = split_newline s @ [[]]"
proof (induction s)
  case Nil
  show ?case by simp
next
  case (Cons c cs)
  then show ?case
    using split_newline_nonempty [of cs] by (auto split: list.splits)
qed

lemma rstrip_Nil: "rstrip [] = []"
  by (simp add: rstrip_def)

lemma rstrip_Cons:
  "rstrip (c # cs) = (if rstrip cs = [] \<and> isspace c then [] else c # rstrip cs)"
  by (auto simp: rstrip_def dropWhile_append)

lemma rstrip_eq_Nil: "rstrip s = [] \<longleftrightarrow> (\<forall>c\<in>set s. isspace c)"
  by (simp add: rstrip_def)

lemma rstrip_last: "s \<noteq> [] \<Longrightarrow> \<not> isspace (last s) \<Longrightarrow> rstrip s = s"
  by (cases s rule: rev_cases) (simp_all add: rstrip_def)

lemma rstrip_append:
  "\<exists>c\<in>set r. \<not> isspace c \<Longrightarrow> rstrip (p @ r) = p @ rstrip r"
  by (auto simp: rstrip_def dropWhile_append)

lemma rstrip_idem: "rstrip (rstrip s) = rstrip s"
  by (induction s) (auto simp: rstrip_Nil rstrip_Cons)

lemma lstrip_rstrip: "lstrip (rstrip s) = rstrip (lstrip s)"
  by (induction s) (auto simp: rstrip_Nil rstrip_Cons lstrip_def)

lemma strip_rstrip: "strip (rstrip s) = strip s"
  by (simp add: strip_def lstrip_rstrip rstrip_idem)

lemma strip_id:
  "s \<noteq> [] \<Longrightarrow> \<not> isspace (hd s) \<Longrightarrow> \<not> isspace (last s) \<Longrightarrow> strip s = s"
  by (cases s) (simp_all add: strip_def lstrip_def rstrip_last)

lemma startswith_split: "startswith s p \<Longrightarrow> s = p @ drop (length p) s"
  by (metis append_take_drop_id startswith_def)

lemma split_newline_join:
  "split_newline (a @ 10 # b) = split_newline a @ split_newline b"
proof (induction a)
  case Nil
  show ?case by simp
next
  case (Cons c a)
  then show ?case
    using split_newline_nonempty [of a] split_newline_nonempty [of "a @ 10 # b"]
    by (auto split: list.splits)
qed

section \<open>Properties of the parser\<close>

lemma parse_loop_map:
  "i \<le> length lines \<Longrightarrow>
   parse_loop lines i elements = elements @ map (\<lambda>l. parse_line (rstrip l)) (drop i lines)"
proof (induction lines i elements rule: parse_loop.induct)
  case (1 lines i elements)
  show ?case
  proof (cases "i < length lines")
    case True
    then have "drop i lines = lines ! i # drop (Suc i) lines"
      by (simp add: Cons_nth_drop_Suc)
    with True 1 show ?thesis
      by (subst parse_loop.simps) simp
  next
    case False
    with 1 show ?thesis
      by (subst parse_loop.simps) simp
  qed
qed

lemma parse_map: "parse content = map (\<lambda>l. parse_line (rstrip l)) (split_newline content)"
  by (simp add: parse_def parse_loop_map)

lemma parse_single_line: "10 \<notin> set s \<Longrightarrow> parse s = [parse_line (rstrip s)]"
  by (simp add: parse_map split_newline_no_newline)

lemma parse_newline: "parse (a @ 10 # b) = parse a @ parse b"
  by (simp add: parse_map split_newline_join)

lemma parse_line_h3: "r \<noteq> [] \<Longrightarrow> parse_line (ustr ''### '' @ r) = H3 (strip r)"
  by (simp add: parse_line_def startswith_def)

lemma parse_line_h1: "r \<noteq> [] \<Longrightarrow> parse_line (ustr ''# '' @ r) = H1 (strip r)"
  by (simp add: parse_line_def startswith_def)

section \<open>Claims about the parser\<close>

text \<open>
  C1. For every text, \<open>parse\<close> returns exactly one element per line of
  \<open>content.split('\n')\<close>, in the order of the lines: the element at position \<open>i\<close> is
  the one the loop body builds from line \<open>i\<close> alone, so no line is merged with another
  and no element spans more than one line.
\<close>

theorem parse_one_element_per_line:
  "length (parse content) = length (split_newline content) \<and>
   parse content = map (\<lambda>l. parse_line (rstrip l)) (split_newline content)"
proof -
  have "parse content = parse_loop (split_newline content) 0 []"
    by (simp add: parse_def)
  also have "\<dots> = [] @ map (\<lambda>l. parse_line (rstrip l)) (drop 0 (split_newline content))"
    by (rule parse_loop_map) simp
  finally have "parse content = map (\<lambda>l. parse_line (rstrip l)) (split_newline content)"
    by simp
  then show ?thesis
    by simp
qed

text \<open>
  C2. A line that begins with \<open>"### "\<close> and has a character other than whitespace
  after the marker (as \<open>"### Title"\<close> has) is parsed to the single element \<open>h3\<close> whose
  text is the remainder, stripped; so it is neither \<open>h1\<close> nor \<open>h2\<close>.
\<close>

theorem h3_marker:
  assumes "startswith line (ustr ''### '')" and "\<exists>c\<in>set (drop 4 line). \<not> isspace c"
    and "10 \<notin> set line"
  shows "parse line = [H3 (strip (drop 4 line))]"
proof -
  define r where "r = drop 4 line"
  have len: "length (ustr ''### '') = 4"
    by simp
  from assms(1) have "line = ustr ''### '' @ drop (length (ustr ''### '')) line"
    by (rule startswith_split)
  then have l: "line = ustr ''### '' @ r"
    by (simp only: len r_def)
  from assms(2) have ne: "rstrip r \<noteq> []"
    by (simp add: rstrip_eq_Nil r_def)
  from assms(2) have "rstrip line = ustr ''### '' @ rstrip r"
    unfolding l using rstrip_append [of r "ustr ''### ''"] by (simp add: r_def)
  then have "parse_line (rstrip line) = H3 (strip r)"
    using parse_line_h3 [OF ne] by (simp add: strip_rstrip)
  with assms(3) show ?thesis
    by (simp add: parse_single_line r_def)
qed

theorem h3_marker_witness:
  "startswith (ustr ''### Title'') (ustr ''### '') \<and>
   parse (ustr ''### Title'') = [H3 (ustr ''Title'')]"
  using h3_marker [of "ustr ''### Title''"]
  by (simp add: startswith_def isspace_def strip_def lstrip_def rstrip_def)

text \<open>
  The line \<open>"### "\<close> begins with the marker, but the right strip leaves \<open>"###"\<close>,
  which no heading marker matches: it is parsed to a paragraph.
\<close>

theorem h3_blank_counterexample:
  "startswith (ustr ''### '') (ustr ''### '') \<and> parse (ustr ''### '') = [P (ustr ''###'')]"
  by (simp add: parse_def parse_loop.simps parse_line_def rstrip_def isspace_def startswith_def
      match_ul_def match_ol_def isdecimal_def decimal_runs_def)

text \<open>
  C3. For every text \<open>t\<close> that is not empty, has no newline and has no leading or
  trailing whitespace, parsing \<open>"# " + t\<close> gives exactly one element, the \<open>h1\<close> with the
  text \<open>t\<close>.
\<close>

theorem h1_trim:
  assumes "t \<noteq> []" and "no_outer_whitespace t" and "10 \<notin> set t"
  shows "parse (ustr ''# '' @ t) = [H1 t]"
proof -
  from assms have hd: "\<not> isspace (hd t)" and la: "\<not> isspace (last t)"
    by (simp_all add: no_outer_whitespace_def)
  from assms(1) la have a: "rstrip (ustr ''# '' @ t) = ustr ''# '' @ t"
    by (intro rstrip_last) simp_all
  have b: "parse_line (ustr ''# '' @ t) = H1 t"
    using parse_line_h1 [OF assms(1)] strip_id [OF assms(1) hd la] by simp
  from assms(3) have "10 \<notin> set (ustr ''# '' @ t)"
    by simp
  then have "parse (ustr ''# '' @ t) = [parse_line (rstrip (ustr ''# '' @ t))]"
    by (rule parse_single_line)
  then show ?thesis
    by (simp only: a b)
qed

theorem h1_trim_witness:
  "ustr ''Report Title'' \<noteq> [] \<and> no_outer_whitespace (ustr ''Report Title'') \<and>
   10 \<notin> set (ustr ''Report Title'') \<and>
   parse (ustr ''# Report Title'') = [H1 (ustr ''Report Title'')]"
  using h1_trim [of "ustr ''Report Title''"]
  by (simp add: no_outer_whitespace_def isspace_def)

text \<open>
  The empty text has no leading or trailing whitespace, and \<open>"# "\<close> is parsed to the
  paragraph \<open>"#"\<close>, not to an \<open>h1\<close> with empty text.
\<close>

theorem h1_empty_counterexample:
  "no_outer_whitespace [] \<and> 10 \<notin> set ([] :: pystr) \<and>
   parse (ustr ''# '' @ []) = [P (ustr ''#'')]"
  by (simp add: no_outer_whitespace_def parse_def parse_loop.simps parse_line_def rstrip_def
      isspace_def startswith_def match_ul_def match_ol_def isdecimal_def decimal_runs_def)

text \<open>
  C9. \<open>parse\<close> never returns the empty list; the empty text gives exactly one \<open>empty\<close>
  element; and a text that ends in a newline gives, after the elements of the text
  before that newline, one more \<open>empty\<close> element.
\<close>

theorem parse_never_empty:
  "parse content \<noteq> [] \<and> parse [] = [Empty] \<and>
   parse (content @ [10]) = parse content @ [Empty]"
  by (simp add: parse_map split_newline_nonempty split_newline_append_newline
      rstrip_Nil parse_line_def)

section \<open>Properties of the inline rules\<close>

lemma lazy_dot_Some:
  "lazy_dot closes p s = Some ys \<Longrightarrow>
   take (length ys) s = ys \<and> 10 \<notin> set ys \<and>
   closes (last (p # ys)) (drop (length ys) s) \<and>
   (\<forall>k<length ys. \<not> closes ((p # ys) ! k) (drop k s))"
proof (induction s arbitrary: p ys)
  case Nil
  then show ?case by (auto split: if_splits)
next
  case (Cons c cs)
  show ?case
  proof (cases "closes p (c # cs)")
    case True
    with Cons.prems show ?thesis by simp
  next
    case False
    with Cons.prems obtain m where m: "lazy_dot closes c cs = Some m" "ys = c # m" "c \<noteq> 10"
      by (auto split: if_splits)
    from Cons.IH [OF m(1)] have ih: "take (length m) cs = m" "10 \<notin> set m"
      "closes (last (c # m)) (drop (length m) cs)"
      "\<forall>k<length m. \<not> closes ((c # m) ! k) (drop k cs)"
      by simp_all
    have "\<forall>k<length ys. \<not> closes ((p # ys) ! k) (drop k (c # cs))"
    proof (intro allI impI)
      fix k assume "k < length ys"
      then show "\<not> closes ((p # ys) ! k) (drop k (c # cs))"
        using False ih(4) m(2) by (cases k) auto
    qed
    with ih m show ?thesis by simp
  qed
qed

lemma lazy_dot_span:
  assumes "lazy_dot closes x rest = Some ys" and "x \<noteq> 10" and "length pre = d"
  shows "shortest_span closes d (pre @ x # rest) (x # ys)"
proof -
  note f = lazy_dot_Some [OF assms(1)]
  have "\<forall>k. 0 < k \<and> k < length (x # ys) \<longrightarrow>
          \<not> closes ((x # ys) ! (k - 1)) (drop (d + k) (pre @ x # rest))"
  proof (intro allI impI)
    fix k assume k: "0 < k \<and> k < length (x # ys)"
    then obtain j where j: "k = Suc j" "j < length ys"
      by (cases k) auto
    with f have "\<not> closes ((x # ys) ! j) (drop j rest)" by simp
    with j assms(3) show "\<not> closes ((x # ys) ! (k - 1)) (drop (d + k) (pre @ x # rest))"
      by simp
  qed
  with f assms(2,3) show ?thesis
    by (simp add: shortest_span_def)
qed

lemma match_strong_shortest:
  assumes "match_strong prev s = Some (out, n)"
  shows "\<exists>x. shortest_span strong_closes 2 s x \<and> take 2 s = ustr ''**'' \<and>
             out = ustr ''<strong>'' @ x @ ustr ''</strong>'' \<and> n = length x + 4"
proof -
  from assms obtain x rest ys where s: "s = [42, 42] @ x # rest" and x: "x \<noteq> 10"
    and l: "lazy_dot strong_closes x rest = Some ys"
    and o: "out = ustr ''<strong>'' @ x # ys @ ustr ''</strong>''" "n = length ys + 5"
    by (auto simp: match_strong_def split: list.splits if_splits option.splits)
  have "shortest_span strong_closes 2 s (x # ys)"
    unfolding s by (rule lazy_dot_span [OF l x]) simp
  with s o show ?thesis by auto
qed

lemma match_strike_shortest:
  assumes "match_strike prev s = Some (out, n)"
  shows "\<exists>x. shortest_span strike_closes 2 s x \<and> take 2 s = ustr ''~~'' \<and>
             out = ustr ''<s>'' @ x @ ustr ''</s>'' \<and> n = length x + 4"
proof -
  from assms obtain x rest ys where s: "s = [126, 126] @ x # rest" and x: "x \<noteq> 10"
    and l: "lazy_dot strike_closes x rest = Some ys"
    and o: "out = ustr ''<s>'' @ x # ys @ ustr ''</s>''" "n = length ys + 5"
    by (auto simp: match_strike_def split: list.splits if_splits option.splits)
  have "shortest_span strike_closes 2 s (x # ys)"
    unfolding s by (rule lazy_dot_span [OF l x]) simp
  with s o show ?thesis by auto
qed

lemma match_em_shortest:
  assumes "match_em prev s = Some (out, n)"
  shows "\<exists>x. shortest_span em_closes 1 s x \<and> take 1 s = ustr ''*'' \<and> prev \<noteq> Some 42 \<and> hd x \<noteq> 42 \<and>
             out = ustr ''<em>'' @ x @ ustr ''</em>'' \<and> n = length x + 2"
proof -
  from assms obtain x rest ys where s: "s = [42] @ x # rest" and x: "x \<noteq> 10" "x \<noteq> 42"
    and p: "prev \<noteq> Some 42"
    and l: "lazy_dot em_closes x rest = Some ys"
    and o: "out = ustr ''<em>'' @ x # ys @ ustr ''</em>''" "n = length ys + 3"
    by (auto simp: match_em_def split: list.splits if_splits option.splits)
  have "shortest_span em_closes 1 s (x # ys)"
    unfolding s by (rule lazy_dot_span [OF l x(1)]) simp
  with s o x p show ?thesis by auto
qed

lemma dropWhile_neq_Cons:
  "dropWhile (\<lambda>c. c \<noteq> d) r = b # r' \<Longrightarrow> b = d \<and> r = takeWhile (\<lambda>c. c \<noteq> d) r @ d # r'"
  by (metis (mono_tags, lifting) hd_dropWhile list.sel(1) list.simps(3) takeWhile_dropWhile_id)

lemma takeWhile_neq_notin: "d \<notin> set (takeWhile (\<lambda>c. c \<noteq> d) r)"
  by (auto dest: set_takeWhileD)

lemma match_link_first:
  assumes "match_link prev s = Some (out, n)"
  shows "\<exists>label url. label \<noteq> [] \<and> url \<noteq> [] \<and> 93 \<notin> set label \<and> 41 \<notin> set url \<and>
           take n s = ustr ''['' @ label @ ustr ''](''  @ url @ ustr '')'' \<and>
           out = ustr ''<a href='' @ [34] @ url @ [34] @ ustr ''>'' @ label @ ustr ''</a>'' \<and>
           n = length label + length url + 4"
proof -
  define label where "label = takeWhile (\<lambda>c. c \<noteq> 93) (tl s)"
  from assms obtain r b r2 where s: "s = 91 # r"
    and d1: "dropWhile (\<lambda>c. c \<noteq> 93) r = b # 40 # r2"
    and ne: "takeWhile (\<lambda>c. c \<noteq> 93) r \<noteq> []" "takeWhile (\<lambda>c. c \<noteq> 41) r2 \<noteq> []"
      "dropWhile (\<lambda>c. c \<noteq> 41) r2 \<noteq> []"
    and o: "out = ustr ''<a href='' @ [34] @ takeWhile (\<lambda>c. c \<noteq> 41) r2 @ [34] @ ustr ''>'' @
                  takeWhile (\<lambda>c. c \<noteq> 93) r @ ustr ''</a>''"
      "n = length (takeWhile (\<lambda>c. c \<noteq> 93) r) + length (takeWhile (\<lambda>c. c \<noteq> 41) r2) + 4"
    by (auto simp: match_link_def Let_def split: list.splits if_splits)
  define url where "url = takeWhile (\<lambda>c. c \<noteq> 41) r2"
  from ne(3) obtain b2 r3 where d2: "dropWhile (\<lambda>c. c \<noteq> 41) r2 = b2 # r3"
    by (cases "dropWhile (\<lambda>c. c \<noteq> 41) r2") auto
  from dropWhile_neq_Cons [OF d1] have r: "r = takeWhile (\<lambda>c. c \<noteq> 93) r @ 93 # 40 # r2"
    by simp
  from dropWhile_neq_Cons [OF d2] have r2: "r2 = url @ 41 # r3"
    by (simp add: url_def)
  have l: "label = takeWhile (\<lambda>c. c \<noteq> 93) r"
    by (simp add: label_def s)
  define pre where "pre = ustr ''['' @ label @ ustr ''](''  @ url @ ustr '')''"
  have a: "s = pre @ r3"
    using r r2 s l by (simp add: pre_def)
  have b: "n = length pre"
    using o(2) by (simp add: pre_def l url_def)
  have "take n s = pre"
    unfolding a b by simp
  then have "take n s = ustr ''['' @ label @ ustr ''](''  @ url @ ustr '')''"
    by (simp only: pre_def)
  moreover have "93 \<notin> set label" "41 \<notin> set url"
    unfolding l url_def by (rule takeWhile_neq_notin)+
  ultimately show ?thesis
    using ne o by (auto simp: l [symmetric] url_def [symmetric])
qed

lemma match_code_first:
  assumes "match_code prev s = Some (out, n)"
  shows "\<exists>body. body \<noteq> [] \<and> 96 \<notin> set body \<and>
           take n s = [96] @ body @ [96] \<and>
           out = ustr ''<code>'' @ body @ ustr ''</code>'' \<and> n = length body + 2"
proof -
  from assms obtain r where s: "s = 96 # r"
    and ne: "takeWhile (\<lambda>c. c \<noteq> 96) r \<noteq> []" "dropWhile (\<lambda>c. c \<noteq> 96) r \<noteq> []"
    and o: "out = ustr ''<code>'' @ takeWhile (\<lambda>c. c \<noteq> 96) r @ ustr ''</code>''"
      "n = length (takeWhile (\<lambda>c. c \<noteq> 96) r) + 2"
    by (auto simp: match_code_def Let_def split: list.splits if_splits)
  define body where "body = takeWhile (\<lambda>c. c \<noteq> 96) r"
  from ne(2) obtain b r3 where d: "dropWhile (\<lambda>c. c \<noteq> 96) r = b # r3"
    by (cases "dropWhile (\<lambda>c. c \<noteq> 96) r") auto
  from dropWhile_neq_Cons [OF d] have "r = body @ 96 # r3"
    by (simp add: body_def)
  define pre where "pre = [96] @ body @ [96]"
  have a: "s = pre @ r3"
    using s \<open>r = body @ 96 # r3\<close> by (simp add: pre_def)
  have b: "n = length pre"
    using o(2) by (simp add: pre_def body_def)
  have "take n s = pre"
    unfolding a b by simp
  then have "take n s = [96] @ body @ [96]"
    by (simp only: pre_def)
  moreover have "96 \<notin> set body"
    unfolding body_def by (rule takeWhile_neq_notin)
  ultimately show ?thesis
    using ne o by (auto simp: body_def [symmetric])
qed

lemma process_inline_order:
  "process_inline t =
     re_sub match_code None (re_sub match_link None (re_sub match_strike None
       (re_sub match_em None (re_sub match_strong None t))))"
  by (simp add: process_inline_def)

lemma re_sub_id:
  assumes "\<And>prev c cs. c \<in> set t \<Longrightarrow> m prev (c # cs) = None"
  shows "re_sub m prev t = t"
  using assms by (induction t arbitrary: prev) simp_all

lemma match_strong_other: "c \<noteq> 42 \<Longrightarrow> match_strong prev (c # cs) = None"
  by (simp add: match_strong_def split: list.splits)

lemma match_em_other: "c \<noteq> 42 \<Longrightarrow> match_em prev (c # cs) = None"
  by (simp add: match_em_def split: list.splits)

lemma match_strike_other: "c \<noteq> 126 \<Longrightarrow> match_strike prev (c # cs) = None"
  by (simp add: match_strike_def split: list.splits)

lemma match_link_other: "c \<noteq> 91 \<Longrightarrow> match_link prev (c # cs) = None"
  by (simp add: match_link_def)

lemma match_code_other: "c \<noteq> 96 \<Longrightarrow> match_code prev (c # cs) = None"
  by (simp add: match_code_def)

lemma process_inline_plain:
  assumes "42 \<notin> set t" "126 \<notin> set t" "91 \<notin> set t" "96 \<notin> set t"
  shows "process_inline t = t"
proof -
  have "re_sub match_strong None t = t"
    using assms(1) by (intro re_sub_id match_strong_other) auto
  moreover have "re_sub match_em None t = t"
    using assms(1) by (intro re_sub_id match_em_other) auto
  moreover have "re_sub match_strike None t = t"
    using assms(2) by (intro re_sub_id match_strike_other) auto
  moreover have "re_sub match_link None t = t"
    using assms(3) by (intro re_sub_id match_link_other) auto
  moreover have "re_sub match_code None t = t"
    using assms(4) by (intro re_sub_id match_code_other) auto
  ultimately show ?thesis
    by (simp add: process_inline_order)
qed

section \<open>Properties of the generator\<close>

lemma generate_loop_Cons:
  "generate_loop (e # es) html_body = generate_loop es (html_body @ generate_loop [e] [])"
  by (cases e) (simp_all add: Let_def)

lemma generate_loop_concat:
  "generate_loop elements html_body =
     html_body @ concat (map (\<lambda>e. generate_loop [e] []) elements)"
proof (induction elements arbitrary: html_body)
  case Nil
  show ?case by simp
next
  case (Cons e es)
  have "generate_loop (e # es) html_body = generate_loop es (html_body @ generate_loop [e] [])"
    by (rule generate_loop_Cons)
  also have "\<dots> = (html_body @ generate_loop [e] []) @
                  concat (map (\<lambda>e. generate_loop [e] []) es)"
    by (rule Cons.IH)
  finally show ?case by simp
qed

lemma generate_loop_Empty:
  "generate_loop (replicate n Empty) [] = replicate n (ustr ''<p>&nbsp;</p>'')"
  using generate_loop_concat [of "replicate n Empty" "[]"]
  by (induction n) (simp_all add: generate_loop_concat [of "Empty # _"])

lemma split_newline_newlines: "split_newline (replicate n 10) = replicate (Suc n) []"
  by (induction n) simp_all

section \<open>Claims about the inline rules and the generator\<close>

text \<open>
  C4. \<open>process_inline\<close> applies the five rules in the order strong, emphasis,
  strikethrough, link, code, each to the result of the one before; it turns
  \<open>**a *b* c**\<close> into \<open><strong>a <em>b</em> c</strong>\<close>; and where a rule matches, the
  text it wraps is the shortest one: for the three lazy rules the closing delimiter
  matches after the text and after no shorter part of it; the label of a link has no
  \<open>]\<close>, its target no \<open>)\<close>, and a code span has no backquote inside.
\<close>

theorem inline_rules:
  "process_inline t =
     re_sub match_code None (re_sub match_link None (re_sub match_strike None
       (re_sub match_em None (re_sub match_strong None t)))) \<and>
   process_inline (ustr ''**a *b* c**'') = ustr ''<strong>a <em>b</em> c</strong>'' \<and>
   (match_strong p1 s1 = Some (o1, n1) \<longrightarrow>
      (\<exists>x. shortest_span strong_closes 2 s1 x \<and> take 2 s1 = ustr ''**'' \<and>
           o1 = ustr ''<strong>'' @ x @ ustr ''</strong>'' \<and> n1 = length x + 4)) \<and>
   (match_em p2 s2 = Some (o2, n2) \<longrightarrow>
      (\<exists>x. shortest_span em_closes 1 s2 x \<and> take 1 s2 = ustr ''*'' \<and>
           p2 \<noteq> Some 42 \<and> hd x \<noteq> 42 \<and>
           o2 = ustr ''<em>'' @ x @ ustr ''</em>'' \<and> n2 = length x + 2)) \<and>
   (match_strike p3 s3 = Some (o3, n3) \<longrightarrow>
      (\<exists>x. shortest_span strike_closes 2 s3 x \<and> take 2 s3 = ustr ''~~'' \<and>
           o3 = ustr ''<s>'' @ x @ ustr ''</s>'' \<and> n3 = length x + 4)) \<and>
   (match_link p4 s4 = Some (o4, n4) \<longrightarrow>
      (\<exists>label url. label \<noteq> [] \<and> url \<noteq> [] \<and> 93 \<notin> set label \<and> 41 \<notin> set url \<and>
           take n4 s4 = ustr ''['' @ label @ ustr '']('' @ url @ ustr '')'' \<and>
           o4 = ustr ''<a href='' @ [34] @ url @ [34] @ ustr ''>'' @ label @ ustr ''</a>'' \<and>
           n4 = length label + length url + 4)) \<and>
   (match_code p5 s5 = Some (o5, n5) \<longrightarrow>
      (\<exists>body. body \<noteq> [] \<and> 96 \<notin> set body \<and> take n5 s5 = [96] @ body @ [96] \<and>
           o5 = ustr ''<code>'' @ body @ ustr ''</code>'' \<and> n5 = length body + 2))"
proof -
  have ex: "process_inline (ustr ''**a *b* c**'') = ustr ''<strong>a <em>b</em> c</strong>''"
    by code_simp
  show ?thesis
    using ex process_inline_order [of t] match_strong_shortest [of p1 s1 o1 n1]
      match_em_shortest [of p2 s2 o2 n2] match_strike_shortest [of p3 s3 o3 n3]
      match_link_first [of p4 s4 o4 n4] match_code_first [of p5 s5 o5 n5]
    by blast
qed

theorem inline_rules_witness:
  "match_strong None (ustr ''**a**b**'') = Some (ustr ''<strong>a</strong>'', 5) \<and>
   match_em (Some 32) (ustr ''*b* c'') = Some (ustr ''<em>b</em>'', 3) \<and>
   match_strike None (ustr ''~~x~~'') = Some (ustr ''<s>x</s>'', 5) \<and>
   match_link None (ustr ''[a](b)'') =
     Some (ustr ''<a href='' @ [34] @ ustr ''b'' @ [34] @ ustr ''>a</a>'', 6) \<and>
   match_code None [96, 120, 96] = Some (ustr ''<code>x</code>'', 3) \<and>
   (\<exists>x. shortest_span strong_closes 2 (ustr ''**a**b**'') x \<and>
        take 2 (ustr ''**a**b**'') = ustr ''**'' \<and>
        ustr ''<strong>a</strong>'' = ustr ''<strong>'' @ x @ ustr ''</strong>'' \<and>
        5 = length x + 4) \<and>
   (\<exists>x. shortest_span em_closes 1 (ustr ''*b* c'') x \<and> take 1 (ustr ''*b* c'') = ustr ''*'' \<and>
        Some 32 \<noteq> Some (42 :: nat) \<and> hd x \<noteq> 42 \<and>
        ustr ''<em>b</em>'' = ustr ''<em>'' @ x @ ustr ''</em>'' \<and> 3 = length x + 2) \<and>
   (\<exists>x. shortest_span strike_closes 2 (ustr ''~~x~~'') x \<and>
        take 2 (ustr ''~~x~~'') = ustr ''~~'' \<and>
        ustr ''<s>x</s>'' = ustr ''<s>'' @ x @ ustr ''</s>'' \<and> 5 = length x + 4) \<and>
   (\<exists>label url. label \<noteq> [] \<and> url \<noteq> [] \<and> 93 \<notin> set label \<and> 41 \<notin> set url \<and>
        take 6 (ustr ''[a](b)'') = ustr ''['' @ label @ ustr '']('' @ url @ ustr '')'' \<and>
        ustr ''<a href='' @ [34] @ ustr ''b'' @ [34] @ ustr ''>a</a>'' =
          ustr ''<a href='' @ [34] @ url @ [34] @ ustr ''>'' @ label @ ustr ''</a>'' \<and>
        6 = length label + length url + 4) \<and>
   (\<exists>body. body \<noteq> [] \<and> 96 \<notin> set body \<and> take 3 [96, 120, 96] = [96] @ body @ [96] \<and>
        ustr ''<code>x</code>'' = ustr ''<code>'' @ body @ ustr ''</code>'' \<and>
        3 = length body + 2)"
proof -
  have h1: "match_strong None (ustr ''**a**b**'') = Some (ustr ''<strong>a</strong>'', 5)"
    by code_simp
  have h2: "match_em (Some 32) (ustr ''*b* c'') = Some (ustr ''<em>b</em>'', 3)"
    by code_simp
  have h3: "match_strike None (ustr ''~~x~~'') = Some (ustr ''<s>x</s>'', 5)"
    by code_simp
  have h4: "match_link None (ustr ''[a](b)'') =
            Some (ustr ''<a href='' @ [34] @ ustr ''b'' @ [34] @ ustr ''>a</a>'', 6)"
    by code_simp
  have h5: "match_code None [96, 120, 96] = Some (ustr ''<code>x</code>'', 3)"
    by code_simp
  note t = inline_rules [of "[]" None "ustr ''**a**b**''" "ustr ''<strong>a</strong>''" 5
        "Some 32" "ustr ''*b* c''" "ustr ''<em>b</em>''" 3
        None "ustr ''~~x~~''" "ustr ''<s>x</s>''" 5
        None "ustr ''[a](b)''" "ustr ''<a href='' @ [34] @ ustr ''b'' @ [34] @ ustr ''>a</a>''" 6
        None "[96, 120, 96]" "ustr ''<code>x</code>''" 3]
  note r = t [THEN conjunct2, THEN conjunct2]
  note c1 = r [THEN conjunct1, THEN mp, OF h1]
  note c2 = r [THEN conjunct2, THEN conjunct1, THEN mp, OF h2]
  note c3 = r [THEN conjunct2, THEN conjunct2, THEN conjunct1, THEN mp, OF h3]
  note c4 = r [THEN conjunct2, THEN conjunct2, THEN conjunct2, THEN conjunct1, THEN mp, OF h4]
  note c5 = r [THEN conjunct2, THEN conjunct2, THEN conjunct2, THEN conjunct2, THEN mp, OF h5]
  show ?thesis
    by (intro conjI h1 h2 h3 h4 h5 c1 c2 c3 c4 c5)
qed

text \<open>
  C10. \<open>process_inline\<close> returns a text without \<open>*\<close>, \<open>~\<close>, \<open>[\<close> and backquote as it
  is, and the generator puts such a text unchanged between the tags of its element.
\<close>

theorem plain_text_unchanged:
  assumes "42 \<notin> set t" "126 \<notin> set t" "91 \<notin> set t" "96 \<notin> set t"
  shows "process_inline t = t \<and>
         generate_loop [P t] [] = [ustr ''<p>'' @ t @ ustr ''</p>''] \<and>
         generate_loop [H1 t] [] = [ustr ''<h1>'' @ t @ ustr ''</h1>''] \<and>
         generate_loop [H2 t] [] = [ustr ''<h2>'' @ t @ ustr ''</h2>''] \<and>
         generate_loop [H3 t] [] = [ustr ''<h3>'' @ t @ ustr ''</h3>''] \<and>
         generate_loop [Li Ul t] [] = [ustr ''<ul><li>'' @ t @ ustr ''</li></ul>''] \<and>
         generate_loop [Li Ol t] [] = [ustr ''<ol><li>'' @ t @ ustr ''</li></ol>'']"
  using process_inline_plain [OF assms] by simp

theorem plain_text_unchanged_witness:
  "42 \<notin> set (ustr ''first item'') \<and> 126 \<notin> set (ustr ''first item'') \<and>
   91 \<notin> set (ustr ''first item'') \<and> 96 \<notin> set (ustr ''first item'') \<and>
   process_inline (ustr ''first item'') = ustr ''first item'' \<and>
   generate_loop [Li Ul (ustr ''first item'')] [] = [ustr ''<ul><li>first item</li></ul>'']"
  using plain_text_unchanged [of "ustr ''first item''"] by simp


text \<open>
  C5. A text all of whose lines are blank (empty or whitespace only) is parsed to one
  \<open>empty\<close> element per line, and the body of the generated document is one
  \<open><p>&nbsp;</p>\<close> per line, none collapsed. There is at least one line, and for every
  \<open>n\<close> the text of \<open>n\<close> newlines has \<open>n + 1\<close> lines, all empty, so every number of
  blank lines from one on occurs. Between the lines of other text such a block gives the
  same elements, after those of the text before it and before those of the text after it.
\<close>

theorem blank_lines_preserved:
  assumes "\<forall>l\<in>set (split_newline content). \<forall>c\<in>set l. isspace c"
  shows "parse content = replicate (length (split_newline content)) Empty \<and>
         generate css (parse content) =
           html_head @ css @ html_middle @
           concat (replicate (length (split_newline content)) (ustr ''<p>&nbsp;</p>'')) @
           html_foot \<and>
         1 \<le> length (split_newline content) \<and>
         split_newline (replicate n 10) = replicate (Suc n) [] \<and>
         parse (before @ 10 # content @ 10 # after) =
           parse before @ replicate (length (split_newline content)) Empty @ parse after"
proof -
  from assms have "map (\<lambda>l. parse_line (rstrip l)) (split_newline content) =
                   map (\<lambda>l. Empty) (split_newline content)"
    by (intro map_cong refl) (simp add: rstrip_eq_Nil [THEN iffD2] parse_line_def)
  then have p: "parse content = replicate (length (split_newline content)) Empty"
    by (simp add: parse_map map_replicate_const)
  have "1 \<le> length (split_newline content)"
    using split_newline_nonempty [of content] by (cases "split_newline content") simp_all
  moreover have "parse (before @ 10 # content @ 10 # after) =
      parse before @ replicate (length (split_newline content)) Empty @ parse after"
    using parse_newline [of before "content @ 10 # after"] parse_newline [of content after]
    by (simp add: p)
  ultimately show ?thesis
    using p by (simp add: generate_def generate_loop_Empty split_newline_newlines)
qed

theorem blank_lines_preserved_witness:
  "split_newline [32, 10, 10] = [[32], [], []] \<and> isspace 32 \<and>
   parse [32, 10, 10] = [Empty, Empty, Empty] \<and>
   generate [] (parse [32, 10, 10]) =
     html_head @ html_middle @ ustr ''<p>&nbsp;</p><p>&nbsp;</p><p>&nbsp;</p>'' @ html_foot"
  using blank_lines_preserved [of "[32, 10, 10]" "[]" 0 "[]" "[]"]
  by (auto simp: isspace_def)

text \<open>
  C6. The body is built element by element in the order of the sequence: the strings
  appended for a sequence are those appended for each element alone, in order. A list
  item alone gives a complete list of its own kind with that single item, so two
  consecutive items give two lists. The document is the body between the fixed parts.
\<close>

theorem li_standalone:
  "generate_loop elements [] = concat (map (\<lambda>e. generate_loop [e] []) elements) \<and>
   generate_loop [Li Ul t] [] = [ustr ''<ul><li>'' @ process_inline t @ ustr ''</li></ul>''] \<and>
   generate_loop [Li Ol t] [] = [ustr ''<ol><li>'' @ process_inline t @ ustr ''</li></ol>''] \<and>
   generate_loop [Li Ul t, Li Ul t'] [] =
     [ustr ''<ul><li>'' @ process_inline t @ ustr ''</li></ul>'',
      ustr ''<ul><li>'' @ process_inline t' @ ustr ''</li></ul>''] \<and>
   generate css elements =
     html_head @ css @ html_middle @ concat (generate_loop elements []) @ html_foot"
  using generate_loop_concat [of elements "[]"] by (simp add: generate_def)

section \<open>Properties of the style dialogue\<close>

lemma float_ok_defaults:
  "float_ok (ustr ''16'')" "float_ok (ustr ''30'')" "float_ok (ustr ''12'')"
  "float_ok (ustr ''28'')" "float_ok (ustr ''2'')"
  by code_simp+

lemma and_then_simps:
  "and_then (Inl e) f = Inl e" "and_then (Inr x) f = f x"
  by (simp_all add: and_then_def)

lemma input_or_simps:
  "input_or d [] = Inl EOFError" "input_or d (l # rest) = Inr (answer d l, rest)"
  by (simp_all add: input_or_def)

lemma ge5_shape: "5 \<le> length xs \<Longrightarrow> \<exists>a b c d e r. xs = a # b # c # d # e # r"
  by (cases xs; cases "tl xs"; cases "tl (tl xs)"; cases "tl (tl (tl xs))";
      cases "tl (tl (tl (tl xs)))") auto


lemma answer_nonempty: "d \<noteq> [] \<Longrightarrow> answer d l \<noteq> []"
  by (simp add: answer_def)

lemma ask_h1_short: "length stdin < 5 \<Longrightarrow> ask_h1 stdin = Inl EOFError"
  by (cases stdin; cases "tl stdin"; cases "tl (tl stdin)"; cases "tl (tl (tl stdin))";
      cases "tl (tl (tl (tl stdin)))")
    (simp_all add: ask_h1_def and_then_simps input_or_simps)

lemma ask_h1_Cons5:
  "ask_h1 (a # b # c # d # e # r) =
     (if float_ok (answer (ustr ''16'') b) \<and> float_ok (answer (ustr ''30'') d) \<and>
         float_ok (answer (ustr ''12'') e)
      then Inr (\<lparr>name = [0x4E00, 0x7EA7, 0x6807, 0x9898],
                 font = \<lparr>family = answer heiti a, size' = PyFloat (answer (ustr ''16'') b)\<rparr>,
                 paragraph' = \<lparr>line_spacing = PyFloat (answer (ustr ''30'') d),
                               space_before = PyInt 0,
                               space_after = PyFloat (answer (ustr ''12'') e),
                               align = answer (ustr ''center'') c,
                               first_line_indent = PyInt 0\<rparr>\<rparr>, r)
      else Inl ValueError)"
  by (simp add: ask_h1_def and_then_simps input_or_simps py_float_def)

lemma ask_h1_Inr:
  assumes "ask_h1 stdin = Inr (st, rest)"
  shows "5 \<le> length stdin \<and> rest = drop 5 stdin \<and> family (font st) \<noteq> [] \<and>
         align (paragraph' st) \<noteq> []"
proof -
  from assms have len: "5 \<le> length stdin"
    using ask_h1_short [of stdin] by (cases "length stdin < 5") simp_all
  then obtain a b c d e r where sh: "stdin = a # b # c # d # e # r"
    using ge5_shape by blast
  from assms show ?thesis
    unfolding sh ask_h1_Cons5
    by (auto simp: answer_nonempty heiti_def split: if_splits)
qed

lemma ask_h1_Inl:
  assumes "ask_h1 stdin = Inl e"
  shows "(e = EOFError \<and> length stdin < 5) \<or>
         (e = ValueError \<and> 5 \<le> length stdin \<and>
          \<not> (answer_ok stdin 1 \<and> answer_ok stdin 3 \<and> answer_ok stdin 4))"
proof (cases "length stdin < 5")
  case True
  with assms show ?thesis
    by (simp add: ask_h1_short)
next
  case False
  then obtain a b c d e r where sh: "stdin = a # b # c # d # e # r"
    using ge5_shape [of stdin] by auto
  from assms show ?thesis
    unfolding sh ask_h1_Cons5
    by (auto simp: answer_ok_def answer_def float_ok_defaults [simplified] split: if_splits)
qed

lemma ask_h2_short: "length stdin < 5 \<Longrightarrow> ask_h2 stdin = Inl EOFError"
  by (cases stdin; cases "tl stdin"; cases "tl (tl stdin)"; cases "tl (tl (tl stdin))";
      cases "tl (tl (tl (tl stdin)))")
    (simp_all add: ask_h2_def and_then_simps input_or_simps)

lemma ask_h2_Cons5:
  "ask_h2 (a # b # c # d # e # r) =
     (if float_ok (answer (ustr ''16'') b) \<and> float_ok (answer (ustr ''30'') d) \<and>
         float_ok (answer (ustr ''12'') e)
      then Inr (\<lparr>name = [0x4E8C, 0x7EA7, 0x6807, 0x9898],
                 font = \<lparr>family = answer heiti a, size' = PyFloat (answer (ustr ''16'') b)\<rparr>,
                 paragraph' = \<lparr>line_spacing = PyFloat (answer (ustr ''30'') d),
                               space_before = PyInt 12,
                               space_after = PyFloat (answer (ustr ''12'') e),
                               align = answer (ustr ''left'') c,
                               first_line_indent = PyInt 0\<rparr>\<rparr>, r)
      else Inl ValueError)"
  by (simp add: ask_h2_def and_then_simps input_or_simps py_float_def)

lemma ask_h2_Inr:
  assumes "ask_h2 stdin = Inr (st, rest)"
  shows "5 \<le> length stdin \<and> rest = drop 5 stdin \<and> family (font st) \<noteq> [] \<and>
         align (paragraph' st) \<noteq> []"
proof -
  from assms have len: "5 \<le> length stdin"
    using ask_h2_short [of stdin] by (cases "length stdin < 5") simp_all
  then obtain a b c d e r where sh: "stdin = a # b # c # d # e # r"
    using ge5_shape by blast
  from assms show ?thesis
    unfolding sh ask_h2_Cons5
    by (auto simp: answer_nonempty heiti_def split: if_splits)
qed

lemma ask_h2_Inl:
  assumes "ask_h2 stdin = Inl e"
  shows "(e = EOFError \<and> length stdin < 5) \<or>
         (e = ValueError \<and> 5 \<le> length stdin \<and>
          \<not> (answer_ok stdin 1 \<and> answer_ok stdin 3 \<and> answer_ok stdin 4))"
proof (cases "length stdin < 5")
  case True
  with assms show ?thesis
    by (simp add: ask_h2_short)
next
  case False
  then obtain a b c d e r where sh: "stdin = a # b # c # d # e # r"
    using ge5_shape [of stdin] by auto
  from assms show ?thesis
    unfolding sh ask_h2_Cons5
    by (auto simp: answer_ok_def answer_def float_ok_defaults [simplified] split: if_splits)
qed

lemma ask_p_short: "length stdin < 5 \<Longrightarrow> ask_p stdin = Inl EOFError"
  by (cases stdin; cases "tl stdin"; cases "tl (tl stdin)"; cases "tl (tl (tl stdin))";
      cases "tl (tl (tl (tl stdin)))")
    (simp_all add: ask_p_def and_then_simps input_or_simps)

lemma ask_p_Cons5:
  "ask_p (a # b # c # d # e # r) =
     (if float_ok (answer (ustr ''16'') b) \<and> float_ok (answer (ustr ''28'') d) \<and>
         float_ok (answer (ustr ''2'') e)
      then Inr (\<lparr>name = [0x6B63, 0x6587],
                 font = \<lparr>family = answer fangsong_gb2312 a, size' = PyFloat (answer (ustr ''16'') b)\<rparr>,
                 paragraph' = \<lparr>line_spacing = PyFloat (answer (ustr ''28'') d),
                               space_before = PyInt 0,
                               space_after = PyInt 0,
                               align = answer (ustr ''justify'') c,
                               first_line_indent = PyFloat (answer (ustr ''2'') e)\<rparr>\<rparr>, r)
      else Inl ValueError)"
  by (simp add: ask_p_def and_then_simps input_or_simps py_float_def)

lemma ask_p_Inr:
  assumes "ask_p stdin = Inr (st, rest)"
  shows "5 \<le> length stdin \<and> rest = drop 5 stdin \<and> family (font st) \<noteq> [] \<and>
         align (paragraph' st) \<noteq> []"
proof -
  from assms have len: "5 \<le> length stdin"
    using ask_p_short [of stdin] by (cases "length stdin < 5") simp_all
  then obtain a b c d e r where sh: "stdin = a # b # c # d # e # r"
    using ge5_shape by blast
  from assms show ?thesis
    unfolding sh ask_p_Cons5
    by (auto simp: answer_nonempty fangsong_gb2312_def split: if_splits)
qed

lemma ask_p_Inl:
  assumes "ask_p stdin = Inl e"
  shows "(e = EOFError \<and> length stdin < 5) \<or>
         (e = ValueError \<and> 5 \<le> length stdin \<and>
          \<not> (answer_ok stdin 1 \<and> answer_ok stdin 3 \<and> answer_ok stdin 4))"
proof (cases "length stdin < 5")
  case True
  with assms show ?thesis
    by (simp add: ask_p_short)
next
  case False
  then obtain a b c d e r where sh: "stdin = a # b # c # d # e # r"
    using ge5_shape [of stdin] by auto
  from assms show ?thesis
    unfolding sh ask_p_Cons5
    by (auto simp: answer_ok_def answer_def float_ok_defaults [simplified] split: if_splits)
qed


lemma default_complete: "style_set_complete DEFAULT_STYLES"
  by (simp add: style_set_complete_def DEFAULT_STYLES_def style_keys_def heiti_def
      fangsong_gb2312_def)

lemma ask_style_body_Inr:
  assumes "ask_style_body stdin = Inr (styles, rest)"
  shows "15 \<le> length stdin \<and> rest = drop 15 stdin \<and> style_set_complete styles \<and>
         map_of styles (ustr ''h3'') = map_of DEFAULT_STYLES (ustr ''h3'') \<and>
         map_of styles (ustr ''li'') = map_of DEFAULT_STYLES (ustr ''li'')"
proof -
  from assms obtain h1 r1 where a1: "ask_h1 stdin = Inr (h1, r1)"
    by (cases "ask_h1 stdin") (auto simp: ask_style_body_def and_then_simps)
  from assms a1 obtain h2 r2 where a2: "ask_h2 r1 = Inr (h2, r2)"
    by (cases "ask_h2 r1") (auto simp: ask_style_body_def and_then_simps)
  from assms a1 a2 obtain p r3 where a3: "ask_p r2 = Inr (p, r3)"
    by (cases "ask_p r2") (auto simp: ask_style_body_def and_then_simps)
  from assms a1 a2 a3 have st: "styles =
       AList.update (ustr ''li'') (default_style (ustr ''li''))
         (AList.update (ustr ''h3'') (default_style (ustr ''h3''))
            (AList.update (ustr ''p'') p
               (AList.update (ustr ''h2'') h2 (AList.update (ustr ''h1'') h1 []))))"
    and r: "rest = r3"
    by (simp_all add: ask_style_body_def and_then_simps)
  note f1 = ask_h1_Inr [OF a1] and f2 = ask_h2_Inr [OF a2] and f3 = ask_p_Inr [OF a3]
  have len: "15 \<le> length stdin" and d: "rest = drop 15 stdin"
    using f1 f2 f3 r by auto
  have dl: "family (font (default_style (ustr ''li''))) \<noteq> []"
    "align (paragraph' (default_style (ustr ''li''))) \<noteq> []"
    "family (font (default_style (ustr ''h3''))) \<noteq> []"
    "align (paragraph' (default_style (ustr ''h3''))) \<noteq> []"
    by (simp_all add: default_style_def DEFAULT_STYLES_def heiti_def fangsong_gb2312_def)
  have c: "style_set_complete styles"
    using f1 f2 f3 dl unfolding st by (simp add: style_set_complete_def style_keys_def) auto
  have m: "map_of styles (ustr ''h3'') = map_of DEFAULT_STYLES (ustr ''h3'')"
    "map_of styles (ustr ''li'') = map_of DEFAULT_STYLES (ustr ''li'')"
    unfolding st by (simp_all add: default_style_def DEFAULT_STYLES_def)
  from len d c m show ?thesis by simp
qed

lemma answer_ok_drop:
  "n \<le> length stdin \<Longrightarrow> answer_ok (drop n stdin) i = answer_ok stdin (n + i)"
  by (auto simp: answer_ok_def)

lemma ask_style_body_ValueError:
  assumes "ask_style_body stdin = Inl ValueError"
  shows "\<not> numbers_ok stdin"
proof (cases "ask_h1 stdin")
  case (Inl e)
  with assms have "ask_h1 stdin = Inl ValueError"
    by (simp add: ask_style_body_def and_then_simps)
  from ask_h1_Inl [OF this] show ?thesis
    by (auto simp: numbers_ok_def)
next
  case (Inr x1)
  obtain h1 r1 where "x1 = (h1, r1)"
    by (cases x1)
  with Inr ask_h1_Inr [of stdin h1 r1]
  have a1: "ask_h1 stdin = Inr (h1, drop 5 stdin)" and l1: "5 \<le> length stdin"
    by simp_all
  show ?thesis
  proof (cases "ask_h2 (drop 5 stdin)")
    case (Inl e)
    with assms a1 have "ask_h2 (drop 5 stdin) = Inl ValueError"
      by (simp add: ask_style_body_def and_then_simps)
    from ask_h2_Inl [OF this] l1 show ?thesis
      by (auto simp: numbers_ok_def answer_ok_drop)
  next
    case (Inr x2)
    obtain h2 r2 where "x2 = (h2, r2)"
      by (cases x2)
    with Inr ask_h2_Inr [of "drop 5 stdin" h2 r2] l1
    have a2: "ask_h2 (drop 5 stdin) = Inr (h2, drop 10 stdin)" and l2: "10 \<le> length stdin"
      by auto
    from assms a1 a2 have "ask_p (drop 10 stdin) = Inl ValueError"
      by (cases "ask_p (drop 10 stdin)") (auto simp: ask_style_body_def and_then_simps)
    from ask_p_Inl [OF this] l2 show ?thesis
      by (auto simp: numbers_ok_def answer_ok_drop)
  qed
qed

section \<open>Claims about the styles and the exit status\<close>

text \<open>
  C7. The built-in defaults are a complete style set. Without input
  \<open>ask_style_config\<close> returns the defaults. Whenever every numeric answer is blank or
  a text that \<open>float\<close> accepts, \<open>ask_style_config\<close> returns a style set; and every style
  set it returns is complete, has the built-in defaults for \<open>h3\<close> and \<open>li\<close>, and is
  either the defaults or was built from exactly fifteen answers, those for \<open>h1\<close>, \<open>h2\<close>
  and \<open>p\<close>, so that \<open>h3\<close> and \<open>li\<close> were not asked for.
\<close>

theorem style_sets_complete:
  "style_set_complete DEFAULT_STYLES \<and>
   ask_style_config [] = Inr (DEFAULT_STYLES, []) \<and>
   (numbers_ok stdin \<longrightarrow> (\<exists>styles rest. ask_style_config stdin = Inr (styles, rest))) \<and>
   (ask_style_config stdin = Inr (styles, rest) \<longrightarrow>
      style_set_complete styles \<and>
      map_of styles (ustr ''h3'') = map_of DEFAULT_STYLES (ustr ''h3'') \<and>
      map_of styles (ustr ''li'') = map_of DEFAULT_STYLES (ustr ''li'') \<and>
      (styles = DEFAULT_STYLES \<or> rest = drop 15 stdin))"
proof -
  have p1: "style_set_complete DEFAULT_STYLES"
    by (rule default_complete)
  have p2: "ask_style_config [] = Inr (DEFAULT_STYLES, [])"
    by (simp add: ask_style_config_def ask_style_body_def ask_h1_short and_then_simps)
  have p3: "numbers_ok stdin \<longrightarrow> (\<exists>styles rest. ask_style_config stdin = Inr (styles, rest))"
  proof
    assume ok: "numbers_ok stdin"
    show "\<exists>styles rest. ask_style_config stdin = Inr (styles, rest)"
    proof (cases "ask_style_body stdin")
      case (Inl e)
      with ok ask_style_body_ValueError [of stdin] have "e = EOFError"
        by (cases e) auto
      with Inl show ?thesis
        by (simp add: ask_style_config_def)
    next
      case (Inr r)
      then show ?thesis
        by (cases r) (simp add: ask_style_config_def)
    qed
  qed
  have p4: "ask_style_config stdin = Inr (styles, rest) \<longrightarrow>
      style_set_complete styles \<and>
      map_of styles (ustr ''h3'') = map_of DEFAULT_STYLES (ustr ''h3'') \<and>
      map_of styles (ustr ''li'') = map_of DEFAULT_STYLES (ustr ''li'') \<and>
      (styles = DEFAULT_STYLES \<or> rest = drop 15 stdin)"
  proof
    assume a: "ask_style_config stdin = Inr (styles, rest)"
    show "style_set_complete styles \<and>
        map_of styles (ustr ''h3'') = map_of DEFAULT_STYLES (ustr ''h3'') \<and>
        map_of styles (ustr ''li'') = map_of DEFAULT_STYLES (ustr ''li'') \<and>
        (styles = DEFAULT_STYLES \<or> rest = drop 15 stdin)"
    proof (cases "ask_style_body stdin")
      case (Inl e)
      with a have "styles = DEFAULT_STYLES"
        by (cases e) (simp_all add: ask_style_config_def)
      then show ?thesis
        by (simp add: default_complete)
    next
      case (Inr r)
      with a have "ask_style_body stdin = Inr (styles, rest)"
        by (simp add: ask_style_config_def)
      from ask_style_body_Inr [OF this] show ?thesis
        by simp
    qed
  qed
  from p1 p2 p3 p4 show ?thesis
    by (intro conjI)
qed

lemma float_ok_examples: "float_ok (ustr ''18'')" "float_ok (ustr ''0'')"
  by code_simp+

lemma strip_examples:
  "strip [] = []" "strip (ustr ''SimSun'') = ustr ''SimSun''" "strip (ustr ''18'') = ustr ''18''"
  "strip (ustr ''0'') = ustr ''0''"
  by code_simp+

theorem style_sets_complete_witness:
  "numbers_ok example_answers \<and>
   ask_style_config example_answers = Inr (example_styles, []) \<and>
   style_set_complete example_styles \<and>
   map_of example_styles (ustr ''h3'') = map_of DEFAULT_STYLES (ustr ''h3'') \<and>
   map_of example_styles (ustr ''li'') = map_of DEFAULT_STYLES (ustr ''li'') \<and>
   drop 15 example_answers = []"
proof -
  have ok: "numbers_ok example_answers"
    using float_ok_examples strip_examples
    by (simp add: numbers_ok_def answer_ok_def example_answers_def)
  have run: "ask_style_config example_answers = Inr (example_styles, [])"
    using float_ok_examples float_ok_defaults strip_examples
    by (simp add: ask_style_config_def ask_style_body_def ask_h1_Cons5 ask_h2_Cons5
        ask_p_Cons5 and_then_simps answer_def example_answers_def example_styles_def heiti_def)
  from style_sets_complete [of example_answers example_styles "[]"] ok run
  show ?thesis
    by (simp add: example_answers_def)
qed

text \<open>
  With the answer \<open>abc\<close> for the size of the first-level heading, \<open>float\<close> raises
  \<open>ValueError\<close>, which \<open>ask_style_config\<close> does not catch: no style set is returned.
\<close>

lemma float_ok_abc: "\<not> float_ok (ustr ''abc'')"
  by code_simp

lemma strip_abc: "strip (ustr ''abc'') = ustr ''abc''"
  by code_simp

theorem malformed_size_counterexample:
  "ask_style_config [[], ustr ''abc'', [], [], []] = Inl ValueError"
  using float_ok_abc strip_abc
  by (simp add: ask_style_config_def ask_style_body_def ask_h1_Cons5 and_then_simps answer_def)

text \<open>
  C8. With \<open>--check-app\<close> the exit status is 0. Without it and with \<open>--no-prompt\<close>, the
  exit status is 1 whenever no host application is found, the input file is missing, or
  the conversion reports failure.
\<close>

theorem exit_status:
  "(check_app a \<longrightarrow> main w a stdin = 0) \<and>
   (\<not> check_app a \<and> no_prompt a \<and> md_file a = Some md_path \<and>
    (fst (detect_app w) = None \<or> md_files w md_path = None \<or> \<not> html_to_docx w) \<longrightarrow>
      main w a stdin = 1)"
  by (auto simp: main_def convert_md_to_word_def truthy_def html_to_docx_def Let_def
      split: option.splits)

theorem exit_status_witness:
  "check_app (example_args False True) \<and> main no_host (example_args False True) [] = 0 \<and>
   \<not> check_app (example_args True False) \<and> no_prompt (example_args True False) \<and>
   md_file (example_args True False) = Some (ustr ''missing.md'') \<and>
   md_files with_word (ustr ''missing.md'') = None \<and>
   main with_word (example_args True False) [] = 1"
  using exit_status [of "example_args False True" no_host "[]"]
    exit_status [of "example_args True False" with_word "[]" "ustr ''missing.md''"]
  by (simp add: example_args_def with_word_def)

text \<open>
  With \<open>--check-app\<close> and no host application the exit status is 0, and in interactive
  mode with a missing input file it is 0 as well.
\<close>

theorem exit_status_counterexample:
  "fst (detect_app no_host) = None \<and> main no_host (example_args False True) [] = 0 \<and>
   md_files with_word (ustr ''missing.md'') = None \<and>
   main with_word (example_args False False) [] = 0"
  by (simp add: main_def example_args_def no_host_def with_word_def detect_app_def
      WORD_PROG_IDS_def WPS_PROG_IDS_def interactive_mode_def convert_md_to_word_def
      truthy_def and_then_simps)


end
